theory Spec2Isabelle
  imports Complex_Main "HOL-Library.Sublist" "HOL-Library.AList" "HOL-Library.FSet"
begin

section \<open>Python values used by the crawler\<close>

text \<open>
  The crawler is Python. Exceptions are values of \<open>py_error\<close>; a function that can raise
  returns \<open>py_error + 'a\<close> with \<open>Inl\<close> for the raised exception. Strings are lists of
  characters; a character stands for a code point below 256. A \<open>dict\<close> is an association
  list read with \<open>map_of\<close> and written with \<open>AList.update\<close>, so that it can be evaluated
  and tested for emptiness.
\<close>

datatype py_error = TypeError | KeyError | AttributeError | ValueError | OtherError string

type_synonym ('k, 'v) dict = "('k \<times> 'v) list"

definition isspace :: "char \<Rightarrow> bool" where
  "isspace c = (c \<in> set [CHR 0x09, CHR 0x0A, CHR 0x0B, CHR 0x0C, CHR 0x0D, CHR 0x1C, CHR 0x1D,
                         CHR 0x1E, CHR 0x1F, CHR 0x20, CHR 0x85, CHR 0xA0])"

definition strip :: "string \<Rightarrow> string" where
  "strip s = rev (dropWhile isspace (rev (dropWhile isspace s)))"

text \<open>
  \<open>str.lower\<close> on code points below 256: the letters A to Z and the Latin-1 capitals
  (0xC0 to 0xDE without the multiplication sign 0xD7) move up by 32.
\<close>

definition upper_chars :: string where
  "upper_chars = ''ABCDEFGHIJKLMNOPQRSTUVWXYZ'' @
     [CHR 0xC0, CHR 0xC1, CHR 0xC2, CHR 0xC3, CHR 0xC4, CHR 0xC5, CHR 0xC6, CHR 0xC7,
      CHR 0xC8, CHR 0xC9, CHR 0xCA, CHR 0xCB, CHR 0xCC, CHR 0xCD, CHR 0xCE, CHR 0xCF,
      CHR 0xD0, CHR 0xD1, CHR 0xD2, CHR 0xD3, CHR 0xD4, CHR 0xD5, CHR 0xD6, CHR 0xD8,
      CHR 0xD9, CHR 0xDA, CHR 0xDB, CHR 0xDC, CHR 0xDD, CHR 0xDE]"

definition lower_chars :: string where
  "lower_chars = ''abcdefghijklmnopqrstuvwxyz'' @
     [CHR 0xE0, CHR 0xE1, CHR 0xE2, CHR 0xE3, CHR 0xE4, CHR 0xE5, CHR 0xE6, CHR 0xE7,
      CHR 0xE8, CHR 0xE9, CHR 0xEA, CHR 0xEB, CHR 0xEC, CHR 0xED, CHR 0xEE, CHR 0xEF,
      CHR 0xF0, CHR 0xF1, CHR 0xF2, CHR 0xF3, CHR 0xF4, CHR 0xF5, CHR 0xF6, CHR 0xF8,
      CHR 0xF9, CHR 0xFA, CHR 0xFB, CHR 0xFC, CHR 0xFD, CHR 0xFE]"

definition lower_char :: "char \<Rightarrow> char" where
  "lower_char c = (case map_of (zip upper_chars lower_chars) c of None \<Rightarrow> c | Some l \<Rightarrow> l)"

definition lower :: "string \<Rightarrow> string" where
  "lower s = map lower_char s"

text \<open>\<open>s.split(sep)\<close> for a one-character separator: always at least one part.\<close>

fun py_split :: "char \<Rightarrow> string \<Rightarrow> string list" where
  "py_split sep [] = [[]]"
| "py_split sep (x # xs) =
     (if x = sep then [] # py_split sep xs
      else (case py_split sep xs of [] \<Rightarrow> [[x]] | p # ps \<Rightarrow> (x # p) # ps))"

text \<open>\<open>s.split(sep, 1)\<close>: split at the first separator only.\<close>

definition py_split1 :: "char \<Rightarrow> string \<Rightarrow> string list" where
  "py_split1 sep s =
     (if sep \<in> set s then [takeWhile (\<lambda>c. c \<noteq> sep) s, tl (dropWhile (\<lambda>c. c \<noteq> sep) s)] else [s])"

section \<open>The outside world\<close>

text \<open>
  An XML document as BeautifulSoup hands it to the sitemap parser: elements with a name
  and children, and text nodes.
\<close>

datatype xml = Elem string "xml list" | Text string

record parsed_url =
  url_scheme :: string
  url_netloc :: string
  url_path :: string

text \<open>
  Everything the crawler reaches through a library or the network is a field of
  \<open>world\<close>: an HTTP GET (the status and the body, \<open>None\<close> when the request raises),
  \<open>urllib.parse.urlparse\<close> and \<open>urljoin\<close>, \<open>float\<close> on a string (\<open>None\<close> is ValueError),
  the two BeautifulSoup parsers, \<open>re.findall\<close> of the sitemap directive, and the element
  that \<open>set.pop\<close> takes from the set whose elements are listed.
\<close>

record world =
  http_get :: "string \<Rightarrow> (int \<times> string) option"
  urlparse :: "string \<Rightarrow> py_error + parsed_url"
  urljoin :: "string \<Rightarrow> string \<Rightarrow> py_error + string"
  pyfloat :: "string \<Rightarrow> real option"
  soup_xml :: "string \<Rightarrow> py_error + xml"
  soup_hrefs :: "string \<Rightarrow> py_error + string list"
  re_sitemap :: "string \<Rightarrow> string list"
  set_pop :: "string list \<Rightarrow> nat"

section \<open>robots.txt: \<open>RobotsParser\<close>\<close>

text \<open>
  The rules dictionary holds, under an agent's name, the list of its disallowed
  prefixes and, under the agent's name followed by \<open>_crawl_delay\<close>, a float.
\<close>

datatype rule_value = Paths "string list" | Delay real

type_synonym rules = "(string, rule_value) dict"

type_synonym robots_cache = "(string, rules) dict"

definition fetch_robots_txt :: "world \<Rightarrow> string \<Rightarrow> string option" where
  "fetch_robots_txt w base_url =
     (case urlparse w base_url of
        Inl e \<Rightarrow> None
      | Inr parsed \<Rightarrow>
          (case http_get w (url_scheme parsed @ ''://'' @ url_netloc parsed @ ''/robots.txt'') of
             None \<Rightarrow> None
           | Some (status, body) \<Rightarrow> if status = 200 then Some body else None))"

text \<open>One iteration of the loop over the lines of \<open>parse_robots_txt\<close>.\<close>

definition robots_line ::
  "world \<Rightarrow> string option \<times> rules \<Rightarrow> string \<Rightarrow> py_error + (string option \<times> rules)" where
  "robots_line w st line0 =
     (let line = strip (if CHR ''#'' \<in> set line0 then takeWhile (\<lambda>c. c \<noteq> CHR ''#'') line0 else line0)
      in if line = [] then Inr st
         else (case py_split1 CHR '':'' line of
            [p0, p1] \<Rightarrow>
              (let directive = lower (strip p0); val = strip p1
               in if directive = ''user-agent''
                  then Inr (Some (lower val),
                            if map_of (snd st) (lower val) = None
                            then AList.update (lower val) (Paths []) (snd st) else snd st)
                  else (case fst st of
                     None \<Rightarrow> Inr st
                   | Some current_agent \<Rightarrow>
                       if current_agent = [] then Inr st
                       else if directive = ''disallow''
                       then (if val \<noteq> []
                             then (case map_of (snd st) current_agent of
                                     None \<Rightarrow> Inl KeyError
                                   | Some (Delay d) \<Rightarrow> Inl AttributeError
                                   | Some (Paths ps) \<Rightarrow>
                                       Inr (fst st, AList.update current_agent (Paths (ps @ [val])) (snd st)))
                             else Inr st)
                       else if directive = ''allow'' then Inr st
                       else if directive = ''crawl-delay''
                       then (case pyfloat w val of
                               None \<Rightarrow> Inr st
                             | Some d \<Rightarrow>
                                 Inr (fst st, AList.update (current_agent @ ''_crawl_delay'') (Delay d) (snd st)))
                       else Inr st))
          | _ \<Rightarrow> Inr st))"

fun robots_lines ::
  "world \<Rightarrow> string option \<times> rules \<Rightarrow> string list \<Rightarrow> py_error + (string option \<times> rules)" where
  "robots_lines w st [] = Inr st"
| "robots_lines w st (l # ls) =
     (case robots_line w st l of Inl e \<Rightarrow> Inl e | Inr st' \<Rightarrow> robots_lines w st' ls)"

definition parse_robots_txt :: "world \<Rightarrow> string option \<Rightarrow> py_error + rules" where
  "parse_robots_txt w robots_content =
     (case robots_content of
        None \<Rightarrow> Inr [(''*'', Paths [])]
      | Some content \<Rightarrow>
          if content = [] then Inr [(''*'', Paths [])]
          else (case robots_lines w (None, []) (py_split CHR 0x0A content) of
                  Inl e \<Rightarrow> Inl e
                | Inr st \<Rightarrow> Inr (if snd st = [] then [(''*'', Paths [])] else snd st)))"

definition get_crawl_delay :: "string \<Rightarrow> rules \<Rightarrow> rule_value" where
  "get_crawl_delay user_agent rules =
     (case map_of rules (lower user_agent @ ''_crawl_delay'') of
        Some v \<Rightarrow> v
      | None \<Rightarrow> (case map_of rules ''*_crawl_delay'' of Some v \<Rightarrow> v | None \<Rightarrow> Delay 1))"

text \<open>The loop over the disallow rules: \<open>False\<close> at the first rule the path starts with.\<close>

fun path_allowed :: "string \<Rightarrow> string list \<Rightarrow> bool" where
  "path_allowed path [] = True"
| "path_allowed path (rule # rs) = (if prefix rule path then False else path_allowed path rs)"

text \<open>The rules of the domain: from the cache, or fetched, parsed and cached.\<close>

definition domain_rules :: "world \<Rightarrow> robots_cache \<Rightarrow> string \<Rightarrow> py_error + (rules \<times> robots_cache)" where
  "domain_rules w cache base_url =
     (case map_of cache base_url of
        None \<Rightarrow>
          (case parse_robots_txt w (fetch_robots_txt w base_url) of
             Inl e \<Rightarrow> Inl e
           | Inr rules \<Rightarrow> Inr (rules, AList.update base_url rules cache))
      | Some rules \<Rightarrow> Inr (rules, cache))"

text \<open>The group of rules that \<open>is_allowed\<close> selects for the crawler's user agent.\<close>

definition user_agent_rules :: "string \<Rightarrow> rules \<Rightarrow> rule_value" where
  "user_agent_rules user_agent rules =
     (case map_of rules (lower user_agent) of
        Some v \<Rightarrow> v
      | None \<Rightarrow> (case map_of rules ''*'' of Some v \<Rightarrow> v | None \<Rightarrow> Paths []))"

text \<open>
  \<open>is_allowed\<close> awaited: the pair (allowed, crawl delay) and the cache afterwards.
  Iterating over a float raises TypeError.
\<close>

definition is_allowed ::
  "world \<Rightarrow> string \<Rightarrow> robots_cache \<Rightarrow> string \<Rightarrow> py_error + ((bool \<times> rule_value) \<times> robots_cache)" where
  "is_allowed w user_agent cache url =
     (case urlparse w url of
        Inl e \<Rightarrow> Inl e
      | Inr parsed \<Rightarrow>
          (let base_url = url_scheme parsed @ ''://'' @ url_netloc parsed;
               path = (if url_path parsed = [] then ''/'' else url_path parsed)
           in case domain_rules w cache base_url of
                Inl e \<Rightarrow> Inl e
              | Inr (rules, cache') \<Rightarrow>
                  (let crawl_delay = get_crawl_delay user_agent rules
                   in case user_agent_rules user_agent rules of
                        Delay d \<Rightarrow> Inl TypeError
                      | Paths rs \<Rightarrow> Inr ((path_allowed path rs, crawl_delay), cache'))))"

text \<open>
  \<open>get_allowed_urls\<close> is a plain \<open>def\<close> that calls the \<open>async def is_allowed\<close> without
  awaiting it. The call gives a coroutine object whose body has not run; subscripting
  a coroutine raises TypeError, subscripting a tuple gives its component.
\<close>

datatype 'a py_object = Coroutine 'a | Tuple2 bool rule_value

definition getitem0 :: "'a py_object \<Rightarrow> py_error + bool" where
  "getitem0 obj = (case obj of Coroutine body \<Rightarrow> Inl TypeError | Tuple2 a b \<Rightarrow> Inr a)"

fun get_allowed_urls_loop ::
  "world \<Rightarrow> string \<Rightarrow> robots_cache \<Rightarrow> string list \<Rightarrow> string list \<Rightarrow> py_error + string list" where
  "get_allowed_urls_loop w user_agent cache allowed_urls [] = Inr allowed_urls"
| "get_allowed_urls_loop w user_agent cache allowed_urls (url # urls) =
     (case getitem0 (Coroutine (is_allowed w user_agent cache url)) of
        Inl e \<Rightarrow> Inl e
      | Inr ok \<Rightarrow>
          get_allowed_urls_loop w user_agent cache
            (if ok then allowed_urls @ [url] else allowed_urls) urls)"

definition get_allowed_urls ::
  "world \<Rightarrow> string \<Rightarrow> robots_cache \<Rightarrow> string \<Rightarrow> string list \<Rightarrow> py_error + string list" where
  "get_allowed_urls w user_agent cache base_url urls =
     get_allowed_urls_loop w user_agent cache [] urls"

section \<open>Extracted documents: \<open>EnhancedHTMLContentExtractor\<close>\<close>

text \<open>
  The values that end up in the dictionaries the extractor returns and the manager
  writes as JSON. \<open>d.get(k)\<close> is \<open>dict_get\<close>: \<open>None\<close> for a missing key.
\<close>

datatype json = JNull | JBool bool | JStr string | JList "json list" | JObj "(string \<times> json) list"

definition dict_get :: "(string, json) dict \<Rightarrow> string \<Rightarrow> json" where
  "dict_get d k = (case map_of d k of None \<Rightarrow> JNull | Some v \<Rightarrow> v)"

fun truthy :: "json \<Rightarrow> bool" where
  "truthy JNull = False"
| "truthy (JBool b) = b"
| "truthy (JStr s) = (s \<noteq> [])"
| "truthy (JList vs) = (vs \<noteq> [])"
| "truthy (JObj kvs) = (kvs \<noteq> [])"

fun py_str :: "json \<Rightarrow> string" where
  "py_str (JStr s) = s"
| "py_str JNull = ''None''"
| "py_str (JBool b) = (if b then ''True'' else ''False'')"
| "py_str (JList vs) = ''[...]''"
| "py_str (JObj kvs) = ''{...}''"

text \<open>
  What the extractor takes from outside: the page fetched for a URL (\<open>None\<close> when the
  fetch fails), and for a fetched page its metadata dictionary, the cleaned body text
  (\<open>clean_text\<close> of the combined structured content) and the structured content. The
  parsers behind them can raise, and nothing in \<open>extract_from_url\<close> catches that.
\<close>

record extractor_world =
  fetch_html :: "string \<Rightarrow> string option"
  page_parts :: "string \<Rightarrow> string \<Rightarrow> py_error + ((string, json) dict \<times> string \<times> json)"

definition extract_from_url :: "extractor_world \<Rightarrow> string \<Rightarrow> py_error + (string, json) dict" where
  "extract_from_url xw url =
     (case fetch_html xw url of
        None \<Rightarrow> Inr [(''url'', JStr url), (''error'', JStr ''Failed to fetch content'')]
      | Some html \<Rightarrow>
          if html = [] then Inr [(''url'', JStr url), (''error'', JStr ''Failed to fetch content'')]
          else (case page_parts xw html url of
                  Inl e \<Rightarrow> Inl e
                | Inr (metadata, clean_text, structured_content) \<Rightarrow>
                    Inr [(''url'', JStr url),
                         (''title'', (case map_of metadata ''title'' of None \<Rightarrow> JStr '''' | Some t \<Rightarrow> t)),
                         (''metadata'', JObj metadata),
                         (''text'', JStr clean_text),
                         (''structured_content'', structured_content),
                         (''raw_html'',
                            (case map_of metadata ''keep_raw_html'' of
                               None \<Rightarrow> JNull
                             | Some v \<Rightarrow> if truthy v then JStr html else JNull))]))"

text \<open>\<open>extract_from_urls\<close> gathers the results in the order of the URLs; an exception of one
  task is the exception of the whole batch.\<close>

fun extract_from_urls :: "extractor_world \<Rightarrow> string list \<Rightarrow> py_error + (string, json) dict list" where
  "extract_from_urls xw [] = Inr []"
| "extract_from_urls xw (url # urls) =
     (case extract_from_url xw url of
        Inl e \<Rightarrow> Inl e
      | Inr r \<Rightarrow> (case extract_from_urls xw urls of Inl e \<Rightarrow> Inl e | Inr rs \<Rightarrow> Inr (r # rs)))"

section \<open>Crawl jobs: \<open>CrawlerJob\<close> and \<open>CrawlerManager\<close>\<close>

type_synonym datetime = nat

record CrawlerJob =
  job_id :: string
  website_id :: int
  website_url :: string
  sitemap_url :: "string option"
  status :: string
  start_time :: "datetime option"
  end_time :: "datetime option"
  total_urls :: int
  processed_urls :: int
  successful_urls :: int
  failed_urls :: int
  errors :: "string list"

text \<open>\<open>CrawlerJob.__init__\<close>, with the fresh uuid passed in.\<close>

definition new_job :: "string \<Rightarrow> int \<Rightarrow> string \<Rightarrow> string option \<Rightarrow> CrawlerJob" where
  "new_job uuid wid wurl smap =
     \<lparr>job_id = uuid, website_id = wid, website_url = wurl, sitemap_url = smap,
      status = ''pending'', start_time = None, end_time = None,
      total_urls = 0, processed_urls = 0, successful_urls = 0, failed_urls = 0, errors = []\<rparr>"

subsection \<open>The Page table and its repository\<close>

record Page =
  page_id :: int
  page_url :: string
  page_title :: json
  page_content :: json
  page_website_id :: int
  last_crawled_at :: "datetime option"
  is_indexed :: bool

definition get_by_url :: "Page list \<Rightarrow> string \<Rightarrow> Page option" where
  "get_by_url pages url = find (\<lambda>p. page_url p = url) pages"

text \<open>\<open>BaseRepository.update\<close>: the first row with the id gets the fields.\<close>

fun repo_update :: "int \<Rightarrow> (Page \<Rightarrow> Page) \<Rightarrow> Page list \<Rightarrow> Page list" where
  "repo_update i f [] = []"
| "repo_update i f (p # ps) = (if page_id p = i then f p # ps else p # repo_update i f ps)"

text \<open>\<open>BaseRepository.create\<close>: the database gives the new row an id above all others.\<close>

definition repo_create :: "(int \<Rightarrow> Page) \<Rightarrow> Page list \<Rightarrow> Page list" where
  "repo_create mk pages = pages @ [mk (fold max (map page_id pages) 0 + 1)]"

subsection \<open>The manager\<close>

datatype task = RunJob string | ResumeJob string

text \<open>
  The manager's fields, and with them what it keeps outside the process: \<open>saved\<close> is the
  jobs directory as the sequence of all writes of \<open>_save_job_metadata\<close> (the file of a
  job holds the last snapshot written for its id), \<open>content_files\<close> the content
  directory (website id and file name to the stored document), \<open>pages\<close> the Page table,
  \<open>tasks\<close> the background tasks handed to \<open>asyncio.create_task\<close>.
\<close>

record CrawlerManager =
  jobs :: "string \<rightharpoonup> CrawlerJob"
  active_jobs :: "string fset"
  max_concurrent_jobs :: int
  saved :: "CrawlerJob list"
  content_files :: "(int \<times> int, (string, json) dict) dict"
  pages :: "Page list"
  tasks :: "task list"

text \<open>\<open>CrawlerManager.__init__\<close> over what is on disk and in the database.\<close>

definition new_manager ::
  "CrawlerJob list \<Rightarrow> (int \<times> int, (string, json) dict) dict \<Rightarrow> Page list \<Rightarrow> CrawlerManager" where
  "new_manager disk_jobs disk_content db_pages =
     \<lparr>jobs = Map.empty, active_jobs = {||}, max_concurrent_jobs = 3,
      saved = disk_jobs, content_files = disk_content, pages = db_pages, tasks = []\<rparr>"

definition save_job_metadata :: "CrawlerJob \<Rightarrow> CrawlerManager \<Rightarrow> CrawlerManager" where
  "save_job_metadata job m = m\<lparr>saved := saved m @ [job]\<rparr>"

definition create_job ::
  "string \<Rightarrow> int \<Rightarrow> string \<Rightarrow> string option \<Rightarrow> CrawlerManager \<Rightarrow> CrawlerJob \<times> CrawlerManager" where
  "create_job uuid wid wurl smap m =
     (let job = new_job uuid wid wurl smap
      in (job, save_job_metadata job (m\<lparr>jobs := (jobs m)(job_id job \<mapsto> job)\<rparr>)))"

text \<open>
  \<open>load_jobs\<close> reads every file of the jobs directory into a new job object and stores
  it under its id: in the end each id on disk maps to its last snapshot.
\<close>

definition load_jobs :: "CrawlerManager \<Rightarrow> CrawlerManager" where
  "load_jobs m = m\<lparr>jobs := fold (\<lambda>j js. js(job_id j \<mapsto> j)) (saved m) (jobs m)\<rparr>"

definition start_job :: "datetime \<Rightarrow> string \<Rightarrow> CrawlerManager \<Rightarrow> bool \<times> CrawlerManager" where
  "start_job now jid m =
     (case jobs m jid of
        None \<Rightarrow> (False, m)
      | Some job \<Rightarrow>
          if status job = ''running'' then (False, m)
          else if max_concurrent_jobs m \<le> int (fcard (active_jobs m)) then (False, m)
          else (let job' = job\<lparr>status := ''running'', start_time := Some now\<rparr>
                in (True, save_job_metadata job'
                      (m\<lparr>jobs := (jobs m)(jid \<mapsto> job'),
                         active_jobs := finsert jid (active_jobs m),
                         tasks := tasks m @ [RunJob jid]\<rparr>))))"

text \<open>
  \<open>stop_job\<close>: \<open>set.remove\<close> raises KeyError when the id is not in the active set; by
  then the job object already has its new status and end time, and the metadata has not
  been saved.
\<close>

definition stop_job ::
  "datetime \<Rightarrow> string \<Rightarrow> CrawlerManager \<Rightarrow> (py_error + bool) \<times> CrawlerManager" where
  "stop_job now jid m =
     (case jobs m jid of
        None \<Rightarrow> (Inr False, m)
      | Some job \<Rightarrow>
          if status job \<noteq> ''running'' then (Inr False, m)
          else (let job' = job\<lparr>status := ''stopped'', end_time := Some now\<rparr>;
                    m' = m\<lparr>jobs := (jobs m)(jid \<mapsto> job')\<rparr>
                in if jid |\<notin>| active_jobs m then (Inl KeyError, m')
                   else (Inr True, save_job_metadata job' (m'\<lparr>active_jobs := active_jobs m |-| {|jid|}\<rparr>))))"

definition resume_job :: "string \<Rightarrow> CrawlerManager \<Rightarrow> bool \<times> CrawlerManager" where
  "resume_job jid m =
     (case jobs m jid of
        None \<Rightarrow> (False, m)
      | Some job \<Rightarrow>
          if status job \<notin> set [''failed'', ''stopped''] then (False, m)
          else if max_concurrent_jobs m \<le> int (fcard (active_jobs m)) then (False, m)
          else (let job' = job\<lparr>status := ''running''\<rparr>
                in (True, save_job_metadata job'
                      (m\<lparr>jobs := (jobs m)(jid \<mapsto> job'),
                         active_jobs := finsert jid (active_jobs m),
                         tasks := tasks m @ [ResumeJob jid]\<rparr>))))"

subsection \<open>Saving a document: \<open>_save_content\<close>\<close>

text \<open>
  The document is written to the file named by \<open>hash(url)\<close> in the website's directory,
  then the Page with that URL is updated, or created when there is none. The built-in
  \<open>hash\<close> is a parameter. A document without a \<open>url\<close> raises KeyError, which the
  method catches and logs. The disk and the database are taken to work.
\<close>

definition save_content ::
  "(string \<Rightarrow> int) \<Rightarrow> datetime \<Rightarrow> int \<Rightarrow> (string, json) dict \<Rightarrow> CrawlerManager \<Rightarrow> CrawlerManager" where
  "save_content py_hash now wid content m =
     (case map_of content ''url'' of
        Some (JStr url) \<Rightarrow>
          m\<lparr>content_files := AList.update (wid, py_hash url) content (content_files m),
            pages :=
              (case get_by_url (pages m) url of
                 Some page \<Rightarrow>
                   repo_update (page_id page)
                     (\<lambda>p. p\<lparr>page_title := dict_get content ''title'',
                             page_content := dict_get content ''content'',
                             last_crawled_at := Some now\<rparr>) (pages m)
               | None \<Rightarrow>
                   repo_create
                     (\<lambda>i. \<lparr>page_id = i, page_url = url,
                            page_title = dict_get content ''title'',
                            page_content = dict_get content ''content'',
                            page_website_id = wid,
                            last_crawled_at = Some now,
                            is_indexed = False\<rparr>) (pages m))\<rparr>
      | _ \<Rightarrow> m)"

subsection \<open>The background pipeline: \<open>_run_job\<close> and \<open>_resume_job\<close>\<close>

text \<open>
  What a pipeline run meets: the URLs that \<open>crawler.crawl()\<close> discovers for the
  website (or the exception it raises), the extractor's world, \<open>hash\<close>, the clock, and
  the calls of \<open>stop_job\<close> for this job that other coroutines make while the pipeline is
  suspended: \<open>stop_at env n\<close> says that one arrives during the \<open>n\<close>-th suspension. The
  pipeline is suspended once in \<open>crawl\<close>, once in each \<open>extract_from_urls\<close> and once in
  each \<open>_save_content\<close>.
\<close>

record pipeline_env =
  crawl_urls :: "string \<Rightarrow> py_error + string list"
  extractor :: extractor_world
  py_hash :: "string \<Rightarrow> int"
  stop_at :: "nat \<Rightarrow> bool"
  clock :: "nat \<Rightarrow> datetime"

record run_state =
  mgr :: CrawlerManager
  tick :: nat

definition await_point :: "pipeline_env \<Rightarrow> string \<Rightarrow> run_state \<Rightarrow> run_state" where
  "await_point env jid s =
     \<lparr>mgr = (if stop_at env (tick s) then snd (stop_job (clock env (tick s)) jid (mgr s)) else mgr s),
      tick = Suc (tick s)\<rparr>"

text \<open>
  The pipeline holds the job object that the manager's table holds under the job's id;
  the model reads and writes it there.
\<close>

definition modify_job :: "string \<Rightarrow> (CrawlerJob \<Rightarrow> CrawlerJob) \<Rightarrow> CrawlerManager \<Rightarrow> CrawlerManager" where
  "modify_job jid f m =
     (case jobs m jid of None \<Rightarrow> m | Some job \<Rightarrow> m\<lparr>jobs := (jobs m)(jid \<mapsto> f job)\<rparr>)"

definition checkpoint :: "string \<Rightarrow> CrawlerManager \<Rightarrow> CrawlerManager" where
  "checkpoint jid m = (case jobs m jid of None \<Rightarrow> m | Some job \<Rightarrow> save_job_metadata job m)"

definition job_running :: "CrawlerManager \<Rightarrow> string \<Rightarrow> bool" where
  "job_running m jid = (case jobs m jid of None \<Rightarrow> False | Some job \<Rightarrow> status job = ''running'')"

text \<open>The body of the loop over the results of a batch, after its test of the status.\<close>

definition process_result ::
  "pipeline_env \<Rightarrow> string \<Rightarrow> (string, json) dict \<Rightarrow> run_state \<Rightarrow> run_state" where
  "process_result env jid result s =
     (case jobs (mgr s) jid of
        None \<Rightarrow> s
      | Some job \<Rightarrow>
          (let s1 =
                 (if map_of result ''error'' \<noteq> None
                  then s\<lparr>mgr := modify_job jid
                          (\<lambda>j. j\<lparr>failed_urls := failed_urls j + 1,
                                 errors := errors j @
                                   [''Failed to extract content from '' @ py_str (dict_get result ''url'')
                                      @ '': '' @ py_str (dict_get result ''error'')]\<rparr>) (mgr s)\<rparr>
                  else (let s' = await_point env jid
                                   (s\<lparr>mgr := save_content (py_hash env) (clock env (tick s))
                                                (website_id job) result (mgr s)\<rparr>)
                        in s'\<lparr>mgr := modify_job jid
                                 (\<lambda>j. j\<lparr>successful_urls := successful_urls j + 1\<rparr>) (mgr s')\<rparr>))
           in s1\<lparr>mgr := checkpoint jid
                    (modify_job jid (\<lambda>j. j\<lparr>processed_urls := processed_urls j + 1\<rparr>) (mgr s1))\<rparr>))"

fun process_results ::
  "pipeline_env \<Rightarrow> string \<Rightarrow> (string, json) dict list \<Rightarrow> run_state \<Rightarrow> run_state" where
  "process_results env jid [] s = s"
| "process_results env jid (result # results) s =
     (if \<not> job_running (mgr s) jid then s
      else process_results env jid results (process_result env jid result s))"

text \<open>
  The loop over the batches of ten URLs. The result is the exception that left the
  loop, if any, with the state it left behind.
\<close>

function process_batches ::
  "pipeline_env \<Rightarrow> string \<Rightarrow> string list \<Rightarrow> run_state \<Rightarrow> py_error option \<times> run_state" where
  "process_batches env jid urls s =
     (if urls = [] then (None, s)
      else if \<not> job_running (mgr s) jid then (None, s)
      else (let s1 = await_point env jid s
            in case extract_from_urls (extractor env) (take 10 urls) of
                 Inl e \<Rightarrow> (Some e, s1)
               | Inr content_results \<Rightarrow>
                   process_batches env jid (drop 10 urls) (process_results env jid content_results s1)))"
  by pat_completeness auto
termination
  by (relation "measure (\<lambda>(env, jid, urls, s). length urls)") auto

declare process_batches.simps [simp del]

text \<open>After the loop: a job still running is completed.\<close>

definition complete_job :: "pipeline_env \<Rightarrow> string \<Rightarrow> run_state \<Rightarrow> run_state" where
  "complete_job env jid s =
     (if job_running (mgr s) jid
      then s\<lparr>mgr := modify_job jid
                (\<lambda>j. j\<lparr>status := ''completed'', end_time := Some (clock env (tick s))\<rparr>) (mgr s)\<rparr>
      else s)"

fun exception_text :: "py_error \<Rightarrow> string" where
  "exception_text (OtherError msg) = msg"
| "exception_text TypeError = ''TypeError''"
| "exception_text KeyError = ''KeyError''"
| "exception_text AttributeError = ''AttributeError''"
| "exception_text ValueError = ''ValueError''"

text \<open>The \<open>except\<close> and \<open>finally\<close> blocks that both pipelines end with.\<close>

definition job_epilogue :: "pipeline_env \<Rightarrow> string \<Rightarrow> py_error option \<times> run_state \<Rightarrow> run_state" where
  "job_epilogue env jid r =
     (let s = snd r;
          m1 = (case fst r of
                  None \<Rightarrow> mgr s
                | Some e \<Rightarrow>
                    modify_job jid
                      (\<lambda>j. j\<lparr>status := ''failed'', end_time := Some (clock env (tick s)),
                             errors := errors j @ [exception_text e]\<rparr>) (mgr s));
          m2 = m1\<lparr>active_jobs := active_jobs m1 |-| {|jid|}\<rparr>
      in s\<lparr>mgr := checkpoint jid m2\<rparr>)"

definition run_job_body :: "pipeline_env \<Rightarrow> string \<Rightarrow> run_state \<Rightarrow> py_error option \<times> run_state" where
  "run_job_body env jid s =
     (case jobs (mgr s) jid of
        None \<Rightarrow> (None, s)
      | Some job \<Rightarrow>
          (let s1 = await_point env jid s
           in case crawl_urls env (website_url job) of
                Inl e \<Rightarrow> (Some e, s1)
              | Inr urls \<Rightarrow>
                  (let s2 = s1\<lparr>mgr := checkpoint jid
                                  (modify_job jid (\<lambda>j. j\<lparr>total_urls := int (length urls)\<rparr>) (mgr s1))\<rparr>;
                       r = process_batches env jid urls s2
                   in case fst r of
                        Some e \<Rightarrow> r
                      | None \<Rightarrow> (None, complete_job env jid (snd r)))))"

definition run_job :: "pipeline_env \<Rightarrow> string \<Rightarrow> run_state \<Rightarrow> run_state" where
  "run_job env jid s = job_epilogue env jid (run_job_body env jid s)"

text \<open>The URLs of the documents found in the content directory of a website.\<close>

definition stored_urls :: "int \<Rightarrow> (int \<times> int, (string, json) dict) dict \<Rightarrow> string list" where
  "stored_urls wid files =
     concat (map (\<lambda>(k, content).
                    if fst k = wid
                    then (case map_of content ''url'' of Some (JStr url) \<Rightarrow> [url] | _ \<Rightarrow> [])
                    else []) files)"

text \<open>The URLs a resumed job sets out to crawl: the discovered ones without a stored document.\<close>

definition remaining_urls :: "CrawlerManager \<Rightarrow> int \<Rightarrow> string list \<Rightarrow> string list" where
  "remaining_urls m wid discovered =
     filter (\<lambda>url. url \<notin> set (stored_urls wid (content_files m))) discovered"

definition resume_job_body :: "pipeline_env \<Rightarrow> string \<Rightarrow> run_state \<Rightarrow> py_error option \<times> run_state" where
  "resume_job_body env jid s =
     (case jobs (mgr s) jid of
        None \<Rightarrow> (None, s)
      | Some job \<Rightarrow>
          (let s1 = await_point env jid s
           in case crawl_urls env (website_url job) of
                Inl e \<Rightarrow> (Some e, s1)
              | Inr discovered \<Rightarrow>
                  (let urls = remaining_urls (mgr s) (website_id job) discovered;
                       s2 = s1\<lparr>mgr := checkpoint jid
                                  (modify_job jid
                                     (\<lambda>j. j\<lparr>total_urls := processed_urls j + int (length urls)\<rparr>) (mgr s1))\<rparr>;
                       r = process_batches env jid urls s2
                   in case fst r of
                        Some e \<Rightarrow> r
                      | None \<Rightarrow> (None, complete_job env jid (snd r)))))"

text \<open>
  \<open>_resume_job\<close>: a job without URL data is handed to \<open>_run_job\<close>, after which only the
  \<open>finally\<close> block of \<open>_resume_job\<close> runs.
\<close>

definition resume_job_run :: "pipeline_env \<Rightarrow> string \<Rightarrow> run_state \<Rightarrow> run_state" where
  "resume_job_run env jid s =
     (case jobs (mgr s) jid of
        None \<Rightarrow> s
      | Some job \<Rightarrow>
          if 0 < total_urls job then job_epilogue env jid (resume_job_body env jid s)
          else job_epilogue env jid (None, run_job env jid s))"

subsection \<open>The states a manager can reach\<close>

text \<open>
  A manager starts on a fresh installation, or after a restart on what the previous one
  left on disk and in the database; from there it goes through the calls of its methods
  and through runs of the two pipelines, with any world and any schedule of stop requests.
\<close>

inductive reachable :: "CrawlerManager \<Rightarrow> bool" where
  fresh: "reachable (new_manager [] [] [])"
| restart: "reachable m \<Longrightarrow> reachable (new_manager (saved m) (content_files m) (pages m))"
| load: "reachable m \<Longrightarrow> reachable (load_jobs m)"
| create: "reachable m \<Longrightarrow> reachable (snd (create_job uuid wid wurl smap m))"
| start: "reachable m \<Longrightarrow> reachable (snd (start_job now jid m))"
| stop: "reachable m \<Longrightarrow> reachable (snd (stop_job now jid m))"
| resume: "reachable m \<Longrightarrow> reachable (snd (resume_job jid m))"
| run: "reachable m \<Longrightarrow> reachable (mgr (run_job env jid \<lparr>mgr = m, tick = t\<rparr>))"
| resume_run: "reachable m \<Longrightarrow> reachable (mgr (resume_job_run env jid \<lparr>mgr = m, tick = t\<rparr>))"

definition counts_consistent :: "CrawlerJob \<Rightarrow> bool" where
  "counts_consistent j = (processed_urls j = successful_urls j + failed_urls j)"

definition manager_consistent :: "CrawlerManager \<Rightarrow> bool" where
  "manager_consistent m =
     ((\<forall>jid j. jobs m jid = Some j \<longrightarrow> counts_consistent j) \<and> (\<forall>j\<in>set (saved m). counts_consistent j))"

text \<open>Two snapshots of a job with the same four counters.\<close>

definition same_counts :: "CrawlerJob \<Rightarrow> CrawlerJob \<Rightarrow> bool" where
  "same_counts j j' = (total_urls j' = total_urls j \<and> processed_urls j' = processed_urls j \<and>
     successful_urls j' = successful_urls j \<and> failed_urls j' = failed_urls j)"

section \<open>Sample sites\<close>

text \<open>
  A stand-in for \<open>urlparse\<close> on URLs of the plain form \<open>scheme://host/path\<close>, and the
  site \<open>x.test\<close> whose robots.txt is the three lines of the specification's example.
\<close>

definition plain_urlparse :: "string \<Rightarrow> py_error + parsed_url" where
  "plain_urlparse u =
     (let rest = drop 3 (dropWhile (\<lambda>c. c \<noteq> CHR '':'') u)
      in Inr \<lparr>url_scheme = takeWhile (\<lambda>c. c \<noteq> CHR '':'') u,
              url_netloc = takeWhile (\<lambda>c. c \<noteq> CHR ''/'') rest,
              url_path = dropWhile (\<lambda>c. c \<noteq> CHR ''/'') rest\<rparr>)"

definition x_test_robots :: string where
  "x_test_robots =
     ''User-agent: *'' @ [CHR 0x0A] @ ''Disallow: /private/'' @ [CHR 0x0A] @ ''Crawl-delay: 2''"

definition x_test_rules :: rules where
  "x_test_rules = [(''*'', Paths [''/private/'']), (''*_crawl_delay'', Delay 2)]"

definition x_test_world :: world where
  "x_test_world =
     \<lparr>http_get = (\<lambda>u. if u = ''https://x.test/robots.txt'' then Some (200, x_test_robots) else None),
      urlparse = plain_urlparse,
      urljoin = (\<lambda>b h. Inr h),
      pyfloat = (\<lambda>s. if s = ''2'' then Some 2 else None),
      soup_xml = (\<lambda>s. Inl ValueError),
      soup_hrefs = (\<lambda>s. Inr []),
      re_sitemap = (\<lambda>s. []),
      set_pop = (\<lambda>xs. 0)\<rparr>"

text \<open>
  A site with two pages, of which \<open>/a\<close> can be fetched and \<open>/b\<close> cannot, a job for
  it, and the job after its start and after its pipeline has run undisturbed.
\<close>

definition sample_extractor :: extractor_world where
  "sample_extractor =
     \<lparr>fetch_html = (\<lambda>u. if u = ''https://x.test/a'' then Some ''<p>Welcome to the site</p>'' else None),
      page_parts = (\<lambda>html url.
         Inr ([(''url'', JStr url), (''domain'', JStr ''x.test''), (''title'', JStr ''Welcome'')],
              ''Welcome to the site'',
              JObj [(''headings'', JList []), (''paragraphs'', JList [JStr ''Welcome to the site'']),
                    (''lists'', JList [])]))\<rparr>"

definition sample_env :: pipeline_env where
  "sample_env =
     \<lparr>crawl_urls = (\<lambda>site. Inr [''https://x.test/a'', ''https://x.test/b'']),
      extractor = sample_extractor,
      py_hash = (\<lambda>u. if u = ''https://x.test/a'' then 1 else if u = ''https://x.test/b'' then 2 else 0),
      stop_at = (\<lambda>n. False),
      clock = (\<lambda>n. 100 + n)\<rparr>"

definition sample_created :: CrawlerManager where
  "sample_created = snd (create_job ''job-1'' 1 ''https://x.test'' None (new_manager [] [] []))"

definition sample_started :: CrawlerManager where
  "sample_started = snd (start_job 10 ''job-1'' sample_created)"

definition sample_finished :: CrawlerManager where
  "sample_finished = mgr (run_job sample_env ''job-1'' \<lparr>mgr = sample_started, tick = 0\<rparr>)"

text \<open>
  The jobs directory left behind by a process that died while \<open>job-1\<close> was running, and
  a manager with three jobs running and a fourth one pending.
\<close>

definition crashed_disk :: "CrawlerJob list" where
  "crashed_disk =
     [new_job ''job-1'' 1 ''https://x.test'' None,
      (new_job ''job-1'' 1 ''https://x.test'' None)\<lparr>status := ''running'', start_time := Some 5\<rparr>]"

definition sample_busy :: CrawlerManager where
  "sample_busy =
     snd (create_job ''job-4'' 4 ''https://d.test'' None
       (snd (start_job 3 ''job-3''
         (snd (create_job ''job-3'' 3 ''https://c.test'' None
           (snd (start_job 2 ''job-2''
             (snd (create_job ''job-2'' 2 ''https://b.test'' None sample_started)))))))))"

text \<open>The document that the extractor returns for the page \<open>/a\<close> of the sample site.\<close>

definition sample_document :: "(string, json) dict" where
  "sample_document =
     [(''url'', JStr ''https://x.test/a''),
      (''title'', JStr ''Welcome''),
      (''metadata'', JObj [(''url'', JStr ''https://x.test/a''), (''domain'', JStr ''x.test''),
                           (''title'', JStr ''Welcome'')]),
      (''text'', JStr ''Welcome to the site''),
      (''structured_content'',
         JObj [(''headings'', JList []), (''paragraphs'', JList [JStr ''Welcome to the site'']),
               (''lists'', JList [])]),
      (''raw_html'', JNull)]"

section \<open>Verification: robots.txt\<close>

lemmas string_eval = strip_def isspace_def lower_def lower_char_def upper_chars_def lower_chars_def
  py_split1_def Let_def

lemma parse_x_test_robots:
  "pyfloat w ''2'' = Some 2 \<Longrightarrow> parse_robots_txt w (Some x_test_robots) = Inr x_test_rules"
  by (simp add: parse_robots_txt_def robots_line_def string_eval x_test_robots_def x_test_rules_def)

lemma path_allowed_iff: "path_allowed path rs = (\<not> (\<exists>rule\<in>set rs. prefix rule path))"
  by (induction rs) auto

lemma x_test_domain_rules:
  assumes "urlparse w ''https://x.test'' =
      Inr \<lparr>url_scheme = ''https'', url_netloc = ''x.test'', url_path = ''''\<rparr>"
    and "http_get w ''https://x.test/robots.txt'' = Some (200, x_test_robots)"
    and "pyfloat w ''2'' = Some 2"
    and "map_of cache ''https://x.test'' = None"
  shows "domain_rules w cache ''https://x.test'' =
     Inr (x_test_rules, AList.update ''https://x.test'' x_test_rules cache)"
  using assms by (simp add: domain_rules_def fetch_robots_txt_def parse_x_test_robots)

lemma x_test_selected:
  assumes "lower ua \<noteq> ''*_crawl_delay''"
  shows "user_agent_rules ua x_test_rules = Paths [''/private/'']"
    and "get_crawl_delay ua x_test_rules = Delay 2"
  using assms by (auto simp: user_agent_rules_def get_crawl_delay_def x_test_rules_def)

lemma x_test_is_allowed:
  assumes "urlparse w url = Inr \<lparr>url_scheme = ''https'', url_netloc = ''x.test'', url_path = p\<rparr>"
    and "urlparse w ''https://x.test'' =
      Inr \<lparr>url_scheme = ''https'', url_netloc = ''x.test'', url_path = ''''\<rparr>"
    and "http_get w ''https://x.test/robots.txt'' = Some (200, x_test_robots)"
    and "pyfloat w ''2'' = Some 2"
    and "map_of cache ''https://x.test'' = None"
    and "lower ua \<noteq> ''*_crawl_delay''"
  shows "map_sum id fst (is_allowed w ua cache url) =
     Inr (\<not> prefix ''/private/'' (if p = [] then ''/'' else p), Delay 2)"
  using assms x_test_domain_rules[OF assms(2-5)] x_test_selected[OF assms(6)]
  by (simp add: is_allowed_def)

lemma is_allowed_selected_group:
  assumes "urlparse w url = Inr parsed"
    and "domain_rules w cache (url_scheme parsed @ ''://'' @ url_netloc parsed) = Inr (rules, cache')"
    and "user_agent_rules ua rules = Paths ps"
  shows "is_allowed w ua cache url =
     Inr ((\<not> (\<exists>rule\<in>set ps. prefix rule (if url_path parsed = [] then ''/'' else url_path parsed)),
           get_crawl_delay ua rules), cache')"
  using assms by (simp add: is_allowed_def path_allowed_iff)

text \<open>
  C7. On a domain whose robots.txt is the three lines \<open>User-agent: *\<close>,
  \<open>Disallow: /private/\<close>, \<open>Crawl-delay: 2\<close>, the first \<open>is_allowed\<close> on
  \<open>https://x.test/private/page\<close> gives (False, 2.0) and on \<open>https://x.test/public\<close>
  gives (True, 2.0). In general, with the rules of the URL's domain at hand, a URL is
  allowed exactly when its path starts with no disallow prefix of the selected group: the
  group stored under the crawler's own lower-cased user agent when there is one, else
  the group under \<open>*\<close>; with neither group every URL is allowed.
\<close>

theorem is_allowed_robots_rules:
  "(urlparse w ''https://x.test/private/page'' =
      Inr \<lparr>url_scheme = ''https'', url_netloc = ''x.test'', url_path = ''/private/page''\<rparr> \<and>
    urlparse w ''https://x.test/public'' =
      Inr \<lparr>url_scheme = ''https'', url_netloc = ''x.test'', url_path = ''/public''\<rparr> \<and>
    urlparse w ''https://x.test'' =
      Inr \<lparr>url_scheme = ''https'', url_netloc = ''x.test'', url_path = ''''\<rparr> \<and>
    http_get w ''https://x.test/robots.txt'' = Some (200, x_test_robots) \<and>
    pyfloat w ''2'' = Some 2 \<and>
    map_of cache ''https://x.test'' = None \<and>
    lower ua \<noteq> ''*_crawl_delay''
    \<longrightarrow> map_sum id fst (is_allowed w ua cache ''https://x.test/private/page'') = Inr (False, Delay 2) \<and>
        map_sum id fst (is_allowed w ua cache ''https://x.test/public'') = Inr (True, Delay 2))
   \<and>
   (urlparse w url = Inr parsed \<and>
    domain_rules w cache (url_scheme parsed @ ''://'' @ url_netloc parsed) = Inr (rules, cache')
    \<longrightarrow> (\<forall>ps. map_of rules (lower ua) = Some (Paths ps) \<longrightarrow>
           is_allowed w ua cache url =
             Inr ((\<not> (\<exists>rule\<in>set ps. prefix rule (if url_path parsed = [] then ''/'' else url_path parsed)),
                   get_crawl_delay ua rules), cache')) \<and>
        (\<forall>ps. map_of rules (lower ua) = None \<and> map_of rules ''*'' = Some (Paths ps) \<longrightarrow>
           is_allowed w ua cache url =
             Inr ((\<not> (\<exists>rule\<in>set ps. prefix rule (if url_path parsed = [] then ''/'' else url_path parsed)),
                   get_crawl_delay ua rules), cache')) \<and>
        (map_of rules (lower ua) = None \<and> map_of rules ''*'' = None \<longrightarrow>
           is_allowed w ua cache url = Inr ((True, get_crawl_delay ua rules), cache')))"
proof (intro conjI impI allI; (elim conjE)?)
  assume a: "urlparse w ''https://x.test/private/page'' =
      Inr \<lparr>url_scheme = ''https'', url_netloc = ''x.test'', url_path = ''/private/page''\<rparr>"
    "urlparse w ''https://x.test'' =
      Inr \<lparr>url_scheme = ''https'', url_netloc = ''x.test'', url_path = ''''\<rparr>"
    "http_get w ''https://x.test/robots.txt'' = Some (200, x_test_robots)"
    "pyfloat w ''2'' = Some 2" "map_of cache ''https://x.test'' = None"
    "lower ua \<noteq> ''*_crawl_delay''"
  show "map_sum id fst (is_allowed w ua cache ''https://x.test/private/page'') = Inr (False, Delay 2)"
    using x_test_is_allowed[OF a] by simp
next
  assume a: "urlparse w ''https://x.test/public'' =
      Inr \<lparr>url_scheme = ''https'', url_netloc = ''x.test'', url_path = ''/public''\<rparr>"
    "urlparse w ''https://x.test'' =
      Inr \<lparr>url_scheme = ''https'', url_netloc = ''x.test'', url_path = ''''\<rparr>"
    "http_get w ''https://x.test/robots.txt'' = Some (200, x_test_robots)"
    "pyfloat w ''2'' = Some 2" "map_of cache ''https://x.test'' = None"
    "lower ua \<noteq> ''*_crawl_delay''"
  show "map_sum id fst (is_allowed w ua cache ''https://x.test/public'') = Inr (True, Delay 2)"
    using x_test_is_allowed[OF a] by simp
next
  fix ps
  assume "urlparse w url = Inr parsed"
    "domain_rules w cache (url_scheme parsed @ ''://'' @ url_netloc parsed) = Inr (rules, cache')"
    "map_of rules (lower ua) = Some (Paths ps)"
  then show "is_allowed w ua cache url =
      Inr ((\<not> (\<exists>rule\<in>set ps. prefix rule (if url_path parsed = [] then ''/'' else url_path parsed)),
            get_crawl_delay ua rules), cache')"
    by (intro is_allowed_selected_group) (simp_all add: user_agent_rules_def)
next
  fix ps
  assume "urlparse w url = Inr parsed"
    "domain_rules w cache (url_scheme parsed @ ''://'' @ url_netloc parsed) = Inr (rules, cache')"
    "map_of rules (lower ua) = None" "map_of rules ''*'' = Some (Paths ps)"
  then show "is_allowed w ua cache url =
      Inr ((\<not> (\<exists>rule\<in>set ps. prefix rule (if url_path parsed = [] then ''/'' else url_path parsed)),
            get_crawl_delay ua rules), cache')"
    by (intro is_allowed_selected_group) (simp_all add: user_agent_rules_def)
next
  assume "urlparse w url = Inr parsed"
    "domain_rules w cache (url_scheme parsed @ ''://'' @ url_netloc parsed) = Inr (rules, cache')"
    "map_of rules (lower ua) = None" "map_of rules ''*'' = None"
  then show "is_allowed w ua cache url = Inr ((True, get_crawl_delay ua rules), cache')"
    using is_allowed_selected_group[of w url parsed cache rules cache' ua "[]"]
    by (simp add: user_agent_rules_def)
qed

lemma x_test_world_rules:
  "domain_rules x_test_world [] ''https://x.test'' = Inr (x_test_rules, [(''https://x.test'', x_test_rules)])"
  using x_test_domain_rules[of x_test_world "[]"]
  by (simp add: x_test_world_def plain_urlparse_def)

theorem is_allowed_robots_rules_witness:
  "map_sum id fst (is_allowed x_test_world ''RAGCrawlerBot/1.0'' [] ''https://x.test/private/page'')
     = Inr (False, Delay 2) \<and>
   map_sum id fst (is_allowed x_test_world ''RAGCrawlerBot/1.0'' [] ''https://x.test/public'')
     = Inr (True, Delay 2) \<and>
   urlparse x_test_world ''https://x.test/private/page'' =
     Inr \<lparr>url_scheme = ''https'', url_netloc = ''x.test'', url_path = ''/private/page''\<rparr> \<and>
   domain_rules x_test_world [] ''https://x.test'' = Inr (x_test_rules, [(''https://x.test'', x_test_rules)]) \<and>
   map_of x_test_rules (lower ''RAGCrawlerBot/1.0'') = None \<and>
   map_of x_test_rules ''*'' = Some (Paths [''/private/'']) \<and>
   is_allowed x_test_world ''RAGCrawlerBot/1.0'' [] ''https://x.test/private/page'' =
     Inr ((False, Delay 2), [(''https://x.test'', x_test_rules)])"
proof -
  have p: "urlparse x_test_world ''https://x.test/private/page'' =
      Inr \<lparr>url_scheme = ''https'', url_netloc = ''x.test'', url_path = ''/private/page''\<rparr>"
    "urlparse x_test_world ''https://x.test/public'' =
      Inr \<lparr>url_scheme = ''https'', url_netloc = ''x.test'', url_path = ''/public''\<rparr>"
    "urlparse x_test_world ''https://x.test'' =
      Inr \<lparr>url_scheme = ''https'', url_netloc = ''x.test'', url_path = ''''\<rparr>"
    by (simp_all add: x_test_world_def plain_urlparse_def)
  have h: "http_get x_test_world ''https://x.test/robots.txt'' = Some (200, x_test_robots)"
    "pyfloat x_test_world ''2'' = Some 2" "map_of ([] :: robots_cache) ''https://x.test'' = None"
    by (simp_all add: x_test_world_def)
  have l: "lower ''RAGCrawlerBot/1.0'' = ''ragcrawlerbot/1.0''"
    by (simp add: string_eval)
  have g: "map_of x_test_rules (lower ''RAGCrawlerBot/1.0'') = None"
    "map_of x_test_rules ''*'' = Some (Paths [''/private/''])"
    "get_crawl_delay ''RAGCrawlerBot/1.0'' x_test_rules = Delay 2"
    by (simp_all add: l x_test_rules_def get_crawl_delay_def)
  show ?thesis
    using is_allowed_robots_rules[of x_test_world "[]" "''RAGCrawlerBot/1.0''"
           "''https://x.test/private/page''"
           "\<lparr>url_scheme = ''https'', url_netloc = ''x.test'', url_path = ''/private/page''\<rparr>"
           x_test_rules "[(''https://x.test'', x_test_rules)]"]
      p h g x_test_world_rules
    by (simp add: l)
qed

text \<open>
  C10. \<open>get_allowed_urls\<close> subscripts the coroutine that the un-awaited call of
  \<open>is_allowed\<close> returns: on every non-empty list of URLs it raises TypeError at the first
  URL, whatever the base URL; on the empty list it returns the empty list.
\<close>

theorem get_allowed_urls_raises:
  "get_allowed_urls w ua cache base_url urls = (if urls = [] then Inr [] else Inl TypeError)"
  by (cases urls) (simp_all add: get_allowed_urls_def getitem0_def)

theorem get_allowed_urls_raises_witness:
  "get_allowed_urls x_test_world ''RAGCrawlerBot/1.0'' [] ''https://x.test'' [''https://x.test/public'']
     = Inl TypeError \<and>
   get_allowed_urls x_test_world ''RAGCrawlerBot/1.0'' [] ''https://x.test'' [] = Inr []"
  using get_allowed_urls_raises[of x_test_world "''RAGCrawlerBot/1.0''" "[]" "''https://x.test''"
      "[''https://x.test/public'']"]
    get_allowed_urls_raises[of x_test_world "''RAGCrawlerBot/1.0''" "[]" "''https://x.test''" "[]"]
  by simp

section \<open>Verification: the counters of a job\<close>

lemma mc_save_content: "manager_consistent (save_content h now wid c m) = manager_consistent m"
  by (auto simp: manager_consistent_def save_content_def split: option.splits json.splits)

lemma mc_stop_job: "manager_consistent m \<Longrightarrow> manager_consistent (snd (stop_job now jid m))"
  by (auto simp: manager_consistent_def stop_job_def save_job_metadata_def counts_consistent_def Let_def
      split: option.splits if_splits)

lemma mc_await: "manager_consistent (mgr s) \<Longrightarrow> manager_consistent (mgr (await_point env jid s))"
  by (simp add: await_point_def mc_stop_job)

lemma mc_checkpoint: "manager_consistent m \<Longrightarrow> manager_consistent (checkpoint jid m)"
  by (auto simp: manager_consistent_def checkpoint_def save_job_metadata_def split: option.splits)

lemma mc_modify:
  "manager_consistent m \<Longrightarrow> (\<And>j. counts_consistent j \<Longrightarrow> counts_consistent (f j)) \<Longrightarrow>
   manager_consistent (modify_job jid f m)"
  by (auto simp: manager_consistent_def modify_job_def split: option.splits)

lemma modify_modify: "modify_job jid f (modify_job jid g m) = modify_job jid (f \<circ> g) m"
  by (auto simp: modify_job_def split: option.splits)

lemma mc_process_result:
  assumes "manager_consistent (mgr s)"
  shows "manager_consistent (mgr (process_result env jid r s))"
proof (cases "jobs (mgr s) jid")
  case None
  then show ?thesis using assms by (simp add: process_result_def)
next
  case (Some job)
  show ?thesis
  proof (cases "map_of r ''error'' = None")
    case True
    let ?s' = "await_point env jid (s\<lparr>mgr := save_content (py_hash env) (clock env (tick s)) (website_id job) r (mgr s)\<rparr>)"
    have "manager_consistent (mgr ?s')"
      using assms by (intro mc_await) (simp add: mc_save_content)
    then have "manager_consistent (modify_job jid ((\<lambda>j. j\<lparr>processed_urls := processed_urls j + 1\<rparr>) \<circ> (\<lambda>j. j\<lparr>successful_urls := successful_urls j + 1\<rparr>)) (mgr ?s'))"
      by (rule mc_modify) (simp add: counts_consistent_def)
    then show ?thesis
      using Some True by (simp add: process_result_def Let_def modify_modify mc_checkpoint)
  next
    case False
    have "manager_consistent (modify_job jid ((\<lambda>j. j\<lparr>processed_urls := processed_urls j + 1\<rparr>) \<circ>
        (\<lambda>j. j\<lparr>failed_urls := failed_urls j + 1,
                errors := errors j @ [''Failed to extract content from '' @ py_str (dict_get r ''url'')
                                      @ '': '' @ py_str (dict_get r ''error'')]\<rparr>)) (mgr s))"
      using assms by (rule mc_modify) (simp add: counts_consistent_def)
    then show ?thesis
      using Some False by (simp add: process_result_def Let_def modify_modify mc_checkpoint)
  qed
qed

lemma mc_process_results:
  "manager_consistent (mgr s) \<Longrightarrow> manager_consistent (mgr (process_results env jid rs s))"
  by (induction rs arbitrary: s) (simp_all add: mc_process_result)

lemma mc_process_batches:
  "manager_consistent (mgr s) \<Longrightarrow> manager_consistent (mgr (snd (process_batches env jid urls s)))"
proof (induction env jid urls s rule: process_batches.induct)
  case (1 env jid urls s)
  show ?case
  proof (cases "urls = [] \<or> \<not> job_running (mgr s) jid")
    case True
    then show ?thesis using "1.prems" by (auto simp: process_batches.simps[of env jid urls s])
  next
    case False
    show ?thesis
    proof (cases "extract_from_urls (extractor env) (take 10 urls)")
      case (Inl e)
      then show ?thesis
        using False "1.prems" by (simp add: process_batches.simps[of env jid urls s] mc_await)
    next
      case (Inr rs)
      have "manager_consistent (mgr (process_results env jid rs (await_point env jid s)))"
        using "1.prems" by (intro mc_process_results mc_await)
      then show ?thesis
        using False Inr "1.IH"[of "await_point env jid s" rs]
        by (simp add: process_batches.simps[of env jid urls s])
    qed
  qed
qed

lemma mc_modify_same:
  assumes "manager_consistent m"
    and "\<And>j. processed_urls (f j) = processed_urls j \<and> successful_urls (f j) = successful_urls j \<and>
           failed_urls (f j) = failed_urls j"
  shows "manager_consistent (modify_job jid f m)"
  using assms(1) by (rule mc_modify) (simp add: counts_consistent_def assms(2))

lemma mc_active: "manager_consistent (m\<lparr>active_jobs := A\<rparr>) = manager_consistent m"
  by (simp add: manager_consistent_def)

lemma mc_complete: "manager_consistent (mgr s) \<Longrightarrow> manager_consistent (mgr (complete_job env jid s))"
  unfolding complete_job_def by (auto intro: mc_modify_same)

lemma mc_epilogue:
  assumes "manager_consistent (mgr (snd r))"
  shows "manager_consistent (mgr (job_epilogue env jid r))"
proof -
  define m1 where "m1 = (case fst r of None \<Rightarrow> mgr (snd r)
      | Some e \<Rightarrow> modify_job jid (\<lambda>j. j\<lparr>status := ''failed'', end_time := Some (clock env (tick (snd r))),
                             errors := errors j @ [exception_text e]\<rparr>) (mgr (snd r)))"
  have "manager_consistent m1"
    unfolding m1_def using assms by (auto split: option.splits intro: mc_modify_same)
  then have "manager_consistent (checkpoint jid (m1\<lparr>active_jobs := active_jobs m1 |-| {|jid|}\<rparr>))"
    by (intro mc_checkpoint) (simp add: mc_active)
  then show ?thesis
    by (simp add: job_epilogue_def Let_def m1_def)
qed

lemma mc_pipeline_tail:
  assumes "manager_consistent (mgr s)"
  shows "manager_consistent (mgr (snd (case fst (process_batches env jid urls s) of
            Some e \<Rightarrow> process_batches env jid urls s
          | None \<Rightarrow> (None, complete_job env jid (snd (process_batches env jid urls s))))))"
  using mc_process_batches[OF assms, where env=env and jid=jid and urls=urls]
  by (cases "fst (process_batches env jid urls s)") (simp_all add: mc_complete)

lemma mc_run_job_body:
  assumes "manager_consistent (mgr s)"
  shows "manager_consistent (mgr (snd (run_job_body env jid s)))"
proof (cases "jobs (mgr s) jid")
  case None
  then show ?thesis using assms by (simp add: run_job_body_def)
next
  case (Some job)
  have a: "manager_consistent (mgr (await_point env jid s))"
    using assms by (rule mc_await)
  show ?thesis
  proof (cases "crawl_urls env (website_url job)")
    case (Inl e)
    then show ?thesis using Some a by (simp add: run_job_body_def Let_def)
  next
    case (Inr urls)
    let ?s2 = "(await_point env jid s)\<lparr>mgr := checkpoint jid
        (modify_job jid (\<lambda>j. j\<lparr>total_urls := int (length urls)\<rparr>) (mgr (await_point env jid s)))\<rparr>"
    have "manager_consistent (mgr ?s2)"
      using a by (auto intro!: mc_checkpoint mc_modify_same)
    from mc_pipeline_tail[OF this] show ?thesis
      using Some Inr by (simp add: run_job_body_def Let_def)
  qed
qed

lemma mc_run_job: "manager_consistent (mgr s) \<Longrightarrow> manager_consistent (mgr (run_job env jid s))"
  by (simp add: run_job_def mc_epilogue mc_run_job_body)

lemma mc_resume_job_body:
  assumes "manager_consistent (mgr s)"
  shows "manager_consistent (mgr (snd (resume_job_body env jid s)))"
proof (cases "jobs (mgr s) jid")
  case None
  then show ?thesis using assms by (simp add: resume_job_body_def)
next
  case (Some job)
  have a: "manager_consistent (mgr (await_point env jid s))"
    using assms by (rule mc_await)
  show ?thesis
  proof (cases "crawl_urls env (website_url job)")
    case (Inl e)
    then show ?thesis using Some a by (simp add: resume_job_body_def Let_def)
  next
    case (Inr discovered)
    let ?urls = "remaining_urls (mgr s) (website_id job) discovered"
    let ?s2 = "(await_point env jid s)\<lparr>mgr := checkpoint jid
        (modify_job jid (\<lambda>j. j\<lparr>total_urls := processed_urls j + int (length ?urls)\<rparr>)
           (mgr (await_point env jid s)))\<rparr>"
    have "manager_consistent (mgr ?s2)"
      using a by (auto intro!: mc_checkpoint mc_modify_same)
    from mc_pipeline_tail[OF this] show ?thesis
      using Some Inr by (simp add: resume_job_body_def Let_def)
  qed
qed

lemma mc_resume_job_run:
  "manager_consistent (mgr s) \<Longrightarrow> manager_consistent (mgr (resume_job_run env jid s))"
  unfolding resume_job_run_def
  by (cases "jobs (mgr s) jid") (simp_all add: mc_epilogue mc_resume_job_body mc_run_job)

lemma mc_start_job: "manager_consistent m \<Longrightarrow> manager_consistent (snd (start_job now jid m))"
  by (auto simp: manager_consistent_def start_job_def save_job_metadata_def counts_consistent_def Let_def
      split: option.splits if_splits)

lemma mc_resume_job: "manager_consistent m \<Longrightarrow> manager_consistent (snd (resume_job jid m))"
  by (auto simp: manager_consistent_def resume_job_def save_job_metadata_def counts_consistent_def Let_def
      split: option.splits if_splits)

lemma mc_create_job: "manager_consistent m \<Longrightarrow> manager_consistent (snd (create_job uuid wid wurl smap m))"
  by (auto simp: manager_consistent_def create_job_def save_job_metadata_def counts_consistent_def Let_def
      new_job_def split: option.splits if_splits)

lemma fold_jobs_consistent:
  "(\<And>jid j. js jid = Some j \<Longrightarrow> counts_consistent j) \<Longrightarrow> (\<And>j. j \<in> set xs \<Longrightarrow> counts_consistent j) \<Longrightarrow>
   fold (\<lambda>j js. js(job_id j \<mapsto> j)) xs js jid = Some j \<Longrightarrow> counts_consistent j"
proof (induction xs arbitrary: js)
  case Nil
  then show ?case by simp
next
  case (Cons a xs)
  have "counts_consistent j'" if "(js(job_id a \<mapsto> a)) jid' = Some j'" for jid' j'
    using that Cons.prems(1)[of jid' j'] Cons.prems(2)[of a] by (auto split: if_splits)
  then show ?case
    using Cons.IH[of "js(job_id a \<mapsto> a)"] Cons.prems(2,3) by simp
qed

lemma mc_load_jobs: "manager_consistent m \<Longrightarrow> manager_consistent (load_jobs m)"
  unfolding manager_consistent_def load_jobs_def
  by (auto intro: fold_jobs_consistent)

lemma mc_new_manager: "manager_consistent (new_manager [] c p)"
  by (simp add: manager_consistent_def new_manager_def)

lemma mc_restart: "manager_consistent m \<Longrightarrow> manager_consistent (new_manager (saved m) c p)"
  by (simp add: manager_consistent_def new_manager_def)

lemma stop_job_counts:
  "jobs m jid = Some j \<Longrightarrow> \<exists>j'. jobs (snd (stop_job now jid m)) jid = Some j' \<and> same_counts j j'"
  by (auto simp: stop_job_def same_counts_def save_job_metadata_def Let_def)

lemma await_counts:
  "jobs (mgr s) jid = Some j \<Longrightarrow> \<exists>j'. jobs (mgr (await_point env jid s)) jid = Some j' \<and> same_counts j j'"
  using stop_job_counts[of "mgr s" jid j] by (auto simp: await_point_def same_counts_def)

lemma jobs_save_content [simp]: "jobs (save_content h now wid c m) = jobs m"
  by (auto simp: save_content_def split: option.splits json.splits)

lemma process_result_counts:
  assumes "jobs (mgr s) jid = Some j"
  shows "\<exists>j'. jobs (mgr (process_result env jid r s)) jid = Some j' \<and>
           total_urls j' = total_urls j \<and>
           processed_urls j' = processed_urls j + 1 \<and>
           (if map_of r ''error'' \<noteq> None
            then successful_urls j' = successful_urls j \<and> failed_urls j' = failed_urls j + 1
            else successful_urls j' = successful_urls j + 1 \<and> failed_urls j' = failed_urls j) \<and>
           saved (mgr (process_result env jid r s)) \<noteq> [] \<and>
           last (saved (mgr (process_result env jid r s))) = j'"
proof (cases "map_of r ''error'' = None")
  case True
  let ?s0 = "s\<lparr>mgr := save_content (py_hash env) (clock env (tick s)) (website_id j) r (mgr s)\<rparr>"
  have "jobs (mgr ?s0) jid = Some j" using assms by simp
  from await_counts[OF this, of env] obtain j1 where
    j1: "jobs (mgr (await_point env jid ?s0)) jid = Some j1" "same_counts j j1" by blast
  then show ?thesis
    using assms True
    by (simp add: process_result_def Let_def modify_job_def checkpoint_def save_job_metadata_def same_counts_def)
next
  case False
  then show ?thesis
    using assms
    by (simp add: process_result_def Let_def modify_job_def checkpoint_def save_job_metadata_def)
qed

lemma reachable_consistent: "reachable m \<Longrightarrow> manager_consistent m"
proof (induction rule: reachable.induct)
  case fresh
  show ?case by (rule mc_new_manager)
next
  case (restart m)
  then show ?case by (simp add: mc_restart)
next
  case (load m)
  then show ?case by (simp add: mc_load_jobs)
next
  case (create m uuid wid wurl smap)
  then show ?case by (simp add: mc_create_job)
next
  case (start m now jid)
  then show ?case by (simp add: mc_start_job)
next
  case (stop m now jid)
  then show ?case by (simp add: mc_stop_job)
next
  case (resume m jid)
  then show ?case by (simp add: mc_resume_job)
next
  case (run m env jid t)
  then show ?case by (simp add: mc_run_job)
next
  case (resume_run m env jid t)
  then show ?case by (simp add: mc_resume_job_run)
qed

text \<open>
  C1. In every state a manager can reach, every job and every snapshot that
  \<open>_save_job_metadata\<close> has written (so every per-URL checkpoint of \<open>_run_job\<close> and of
  \<open>_resume_job\<close>, with or without a stop request on the way) has
  \<open>processed_urls = successful_urls + failed_urls\<close>; both pipelines keep this from any
  state that has it. One URL attempt adds one to \<open>processed_urls\<close> and one to exactly one
  of \<open>successful_urls\<close> and \<open>failed_urls\<close>, and the snapshot written at its checkpoint is the
  job with these counters.
\<close>

theorem processed_is_successful_plus_failed:
  "(reachable m \<longrightarrow>
      (\<forall>c\<in>set (saved m). processed_urls c = successful_urls c + failed_urls c) \<and>
      (\<forall>jid j. jobs m jid = Some j \<longrightarrow> processed_urls j = successful_urls j + failed_urls j)) \<and>
   (manager_consistent (mgr s) \<longrightarrow>
      manager_consistent (mgr (run_job env jid s)) \<and>
      manager_consistent (mgr (resume_job_run env jid s))) \<and>
   (jobs (mgr s) jid = Some j \<longrightarrow>
      (\<exists>j'. jobs (mgr (process_result env jid r s)) jid = Some j' \<and>
            last (saved (mgr (process_result env jid r s))) = j' \<and>
            processed_urls j' = processed_urls j + 1 \<and>
            (successful_urls j' = successful_urls j + 1 \<and> failed_urls j' = failed_urls j \<or>
             successful_urls j' = successful_urls j \<and> failed_urls j' = failed_urls j + 1)))"
proof (intro conjI impI)
  assume "reachable m"
  then have "manager_consistent m" by (rule reachable_consistent)
  then show "\<forall>c\<in>set (saved m). processed_urls c = successful_urls c + failed_urls c"
    and "\<forall>jid j. jobs m jid = Some j \<longrightarrow> processed_urls j = successful_urls j + failed_urls j"
    by (auto simp: manager_consistent_def counts_consistent_def)
next
  assume "manager_consistent (mgr s)"
  then show "manager_consistent (mgr (run_job env jid s))"
    and "manager_consistent (mgr (resume_job_run env jid s))"
    by (simp_all add: mc_run_job mc_resume_job_run)
next
  assume "jobs (mgr s) jid = Some j"
  from process_result_counts[OF this, of env r]
  show "\<exists>j'. jobs (mgr (process_result env jid r s)) jid = Some j' \<and>
            last (saved (mgr (process_result env jid r s))) = j' \<and>
            processed_urls j' = processed_urls j + 1 \<and>
            (successful_urls j' = successful_urls j + 1 \<and> failed_urls j' = failed_urls j \<or>
             successful_urls j' = successful_urls j \<and> failed_urls j' = failed_urls j + 1)"
    by (auto split: if_splits)
qed

lemma sample_finished_snapshots:
  "map (\<lambda>c. (status c, total_urls c, processed_urls c, successful_urls c, failed_urls c))
       (saved sample_finished) =
     [(''pending'', 0, 0, 0, 0), (''running'', 0, 0, 0, 0), (''running'', 2, 0, 0, 0),
      (''running'', 2, 1, 1, 0), (''running'', 2, 2, 1, 1), (''completed'', 2, 2, 1, 1)]"
  by code_simp

lemma sample_started_job:
  "jobs sample_started ''job-1'' =
     Some \<lparr>job_id = ''job-1'', website_id = 1, website_url = ''https://x.test'', sitemap_url = None,
           status = ''running'', start_time = Some 10, end_time = None,
           total_urls = 0, processed_urls = 0, successful_urls = 0, failed_urls = 0, errors = []\<rparr>"
  by code_simp

lemma sample_reachable: "reachable sample_started" "reachable sample_finished"
  unfolding sample_finished_def sample_started_def sample_created_def
  by (intro reachable.intros)+

theorem processed_is_successful_plus_failed_witness:
  "reachable sample_finished \<and>
   map (\<lambda>c. (status c, total_urls c, processed_urls c, successful_urls c, failed_urls c))
       (saved sample_finished) =
     [(''pending'', 0, 0, 0, 0), (''running'', 0, 0, 0, 0), (''running'', 2, 0, 0, 0),
      (''running'', 2, 1, 1, 0), (''running'', 2, 2, 1, 1), (''completed'', 2, 2, 1, 1)] \<and>
   manager_consistent sample_started \<and>
   manager_consistent sample_finished \<and>
   (\<exists>j'. jobs (mgr (process_result sample_env ''job-1''
                      [(''url'', JStr ''https://x.test/b''), (''error'', JStr ''Failed to fetch content'')]
                      \<lparr>mgr = sample_started, tick = 0\<rparr>)) ''job-1'' = Some j' \<and>
         processed_urls j' = 1 \<and> successful_urls j' + failed_urls j' = 1)"
proof -
  let ?s = "\<lparr>mgr = sample_started, tick = 0\<rparr>"
  let ?j = "\<lparr>job_id = ''job-1'', website_id = 1, website_url = ''https://x.test'', sitemap_url = None,
           status = ''running'', start_time = Some 10, end_time = None,
           total_urls = 0, processed_urls = 0, successful_urls = 0, failed_urls = 0, errors = []\<rparr>"
  let ?r = "[(''url'', JStr ''https://x.test/b''), (''error'', JStr ''Failed to fetch content'')]"
  note T = processed_is_successful_plus_failed[of sample_finished ?s sample_env "''job-1''" ?j ?r]
  have c: "manager_consistent (mgr ?s)"
    using sample_reachable(1) by (simp add: reachable_consistent)
  have j: "jobs (mgr ?s) ''job-1'' = Some ?j"
    by (simp add: sample_started_job)
  have f: "mgr (run_job sample_env ''job-1'' ?s) = sample_finished"
    by (simp add: sample_finished_def)
  from T c f have 1: "manager_consistent sample_finished"
    by simp
  from T j obtain j' where
    "jobs (mgr (process_result sample_env ''job-1'' ?r ?s)) ''job-1'' = Some j'"
    "processed_urls j' = 1" "successful_urls j' + failed_urls j' = 1"
    by auto
  then have 2: "\<exists>j'. jobs (mgr (process_result sample_env ''job-1'' ?r ?s)) ''job-1'' = Some j' \<and>
         processed_urls j' = 1 \<and> successful_urls j' + failed_urls j' = 1"
    by blast
  from c have 3: "manager_consistent sample_started" by simp
  show ?thesis
    using sample_reachable(2) sample_finished_snapshots 1 2 3 by blast
qed

section \<open>Verification: starting and stopping a job\<close>

text \<open>
  C4. \<open>start_job\<close> returns False and leaves the whole manager as it is (so the job's
  status, start time and counters too) when the id is unknown, the job is running, or
  the active set has at least \<open>max_concurrent_jobs\<close> members, which is 3 in a new manager.
  Otherwise it returns True with the job running, its start time set, its counters as
  they were, its id in the active set, the snapshot saved and the pipeline only handed
  over as a background task.
\<close>

theorem start_job_contract:
  "(jobs m jid = None \<or> (\<exists>job. jobs m jid = Some job \<and> status job = ''running'') \<or>
      max_concurrent_jobs m \<le> int (fcard (active_jobs m))
    \<longrightarrow> start_job now jid m = (False, m)) \<and>
   (\<forall>job. jobs m jid = Some job \<and> status job \<noteq> ''running'' \<and>
           int (fcard (active_jobs m)) < max_concurrent_jobs m
    \<longrightarrow> start_job now jid m =
          (True, m\<lparr>jobs := (jobs m)(jid \<mapsto> job\<lparr>status := ''running'', start_time := Some now\<rparr>),
                   active_jobs := finsert jid (active_jobs m),
                   tasks := tasks m @ [RunJob jid],
                   saved := saved m @ [job\<lparr>status := ''running'', start_time := Some now\<rparr>]\<rparr>)) \<and>
   max_concurrent_jobs (new_manager disk_jobs disk_content db_pages) = 3"
  by (auto simp: start_job_def new_manager_def save_job_metadata_def Let_def split: option.splits)

lemma sample_created_job:
  "jobs sample_created ''job-1'' = Some (new_job ''job-1'' 1 ''https://x.test'' None)"
  "int (fcard (active_jobs sample_created)) < max_concurrent_jobs sample_created"
  by code_simp+

lemma sample_busy_full:
  "jobs sample_busy ''job-4'' = Some (new_job ''job-4'' 4 ''https://d.test'' None)"
  "max_concurrent_jobs sample_busy \<le> int (fcard (active_jobs sample_busy))"
  by code_simp+

theorem start_job_contract_witness:
  "start_job 11 ''job-1'' sample_started = (False, sample_started) \<and>
   start_job 11 ''job-4'' sample_busy = (False, sample_busy) \<and>
   jobs sample_busy ''job-4'' = Some (new_job ''job-4'' 4 ''https://d.test'' None) \<and>
   max_concurrent_jobs sample_busy \<le> int (fcard (active_jobs sample_busy)) \<and>
   jobs sample_created ''job-1'' = Some (new_job ''job-1'' 1 ''https://x.test'' None) \<and>
   fst (start_job 10 ''job-1'' sample_created) = True \<and>
   jobs (snd (start_job 10 ''job-1'' sample_created)) ''job-1'' =
     Some ((new_job ''job-1'' 1 ''https://x.test'' None)\<lparr>status := ''running'', start_time := Some 10\<rparr>) \<and>
   active_jobs (snd (start_job 10 ''job-1'' sample_created)) = finsert ''job-1'' (active_jobs sample_created) \<and>
   tasks (snd (start_job 10 ''job-1'' sample_created)) = tasks sample_created @ [RunJob ''job-1'']"
proof -
  have r: "\<exists>job. jobs sample_started ''job-1'' = Some job \<and> status job = ''running''"
    by (simp add: sample_started_job)
  have p: "status (new_job ''job-1'' 1 ''https://x.test'' None) \<noteq> ''running''"
    by (simp add: new_job_def)
  show ?thesis
    using start_job_contract[of sample_started "''job-1''" 11]
      start_job_contract[of sample_busy "''job-4''" 11]
      start_job_contract[of sample_created "''job-1''" 10]
      r p sample_created_job sample_busy_full
    by simp
qed

text \<open>
  C3. What \<open>stop_job\<close> does: it returns False and changes nothing when the id is unknown
  or the job is not running; for a running job whose id is in the active set it
  returns True with the job stopped, its end time set, the id removed and the snapshot
  saved. For a running job whose id is not in the active set, as after \<open>load_jobs\<close> in
  a restarted process, it returns nothing: \<open>set.remove\<close> raises KeyError once the status
  and the end time have been changed, and nothing is saved.
\<close>

theorem stop_job_contract:
  "(jobs m jid = None \<or> (\<exists>job. jobs m jid = Some job \<and> status job \<noteq> ''running'')
    \<longrightarrow> stop_job now jid m = (Inr False, m)) \<and>
   (\<forall>job. jobs m jid = Some job \<and> status job = ''running'' \<and> jid |\<in>| active_jobs m
    \<longrightarrow> stop_job now jid m =
          (Inr True, m\<lparr>jobs := (jobs m)(jid \<mapsto> job\<lparr>status := ''stopped'', end_time := Some now\<rparr>),
                       active_jobs := active_jobs m |-| {|jid|},
                       saved := saved m @ [job\<lparr>status := ''stopped'', end_time := Some now\<rparr>]\<rparr>)) \<and>
   (\<forall>job. jobs m jid = Some job \<and> status job = ''running'' \<and> jid |\<notin>| active_jobs m
    \<longrightarrow> stop_job now jid m =
          (Inl KeyError, m\<lparr>jobs := (jobs m)(jid \<mapsto> job\<lparr>status := ''stopped'', end_time := Some now\<rparr>)\<rparr>))"
  by (auto simp: stop_job_def save_job_metadata_def Let_def split: option.splits)

lemma crashed_loaded:
  "jobs (load_jobs (new_manager crashed_disk [] [])) ''job-1'' =
     Some ((new_job ''job-1'' 1 ''https://x.test'' None)\<lparr>status := ''running'', start_time := Some 5\<rparr>)"
  "active_jobs (load_jobs (new_manager crashed_disk [] [])) = {||}"
  by (simp_all add: load_jobs_def new_manager_def crashed_disk_def new_job_def)

theorem stop_job_contract_witness:
  "jobs (load_jobs (new_manager crashed_disk [] [])) ''job-1'' =
     Some ((new_job ''job-1'' 1 ''https://x.test'' None)\<lparr>status := ''running'', start_time := Some 5\<rparr>) \<and>
   ''job-1'' |\<notin>| active_jobs (load_jobs (new_manager crashed_disk [] [])) \<and>
   fst (stop_job 9 ''job-1'' (load_jobs (new_manager crashed_disk [] []))) = Inl KeyError \<and>
   jobs (snd (stop_job 9 ''job-1'' (load_jobs (new_manager crashed_disk [] [])))) ''job-1'' =
     Some ((new_job ''job-1'' 1 ''https://x.test'' None)
             \<lparr>status := ''stopped'', start_time := Some 5, end_time := Some 9\<rparr>) \<and>
   saved (snd (stop_job 9 ''job-1'' (load_jobs (new_manager crashed_disk [] [])))) = crashed_disk \<and>
   stop_job 9 ''job-1'' sample_created = (Inr False, sample_created) \<and>
   fst (stop_job 12 ''job-1'' sample_started) = Inr True \<and>
   active_jobs (snd (stop_job 12 ''job-1'' sample_started)) = {||}"
proof -
  have s: "status ((new_job ''job-1'' 1 ''https://x.test'' None)\<lparr>status := ''running'', start_time := Some 5\<rparr>)
      = ''running''"
    by simp
  have d: "saved (load_jobs (new_manager crashed_disk [] [])) = crashed_disk"
    by (simp add: load_jobs_def new_manager_def)
  have p: "\<exists>job. jobs sample_created ''job-1'' = Some job \<and> status job \<noteq> ''running''"
    by (simp add: sample_created_job new_job_def)
  have a: "''job-1'' |\<in>| active_jobs sample_started" "active_jobs sample_started |-| {|''job-1''|} = {||}"
    by code_simp+
  show ?thesis
    using stop_job_contract[of "load_jobs (new_manager crashed_disk [] [])" "''job-1''" 9]
      stop_job_contract[of sample_created "''job-1''" 9]
      stop_job_contract[of sample_started "''job-1''" 12]
      crashed_loaded s d p a sample_started_job
    by (simp add: new_job_def)
qed

section \<open>Verification: saving a document\<close>

lemma extract_success_shape:
  assumes "extract_from_url xw url = Inr doc" and "map_of doc ''error'' = None"
  shows "map_of doc ''url'' = Some (JStr url)" and "map_of doc ''content'' = None"
    and "\<exists>clean_text. map_of doc ''text'' = Some (JStr clean_text)"
  using assms
  by (auto simp: extract_from_url_def split: option.splits if_splits sum.splits prod.splits)

lemma repo_update_ids: "map page_id (repo_update i f ps) = map page_id ps"
  if "\<And>p. page_id (f p) = page_id p"
  using that by (induction ps) auto

lemma repo_update_urls: "map page_url (repo_update i f ps) = map page_url ps"
  if "\<And>p. page_url (f p) = page_url p"
  using that by (induction ps) auto

lemma find_repo_update:
  assumes "find (\<lambda>p. page_url p = url) ps = Some page" and "distinct (map page_id ps)"
    and "\<And>p. page_url (f p) = page_url p"
  shows "find (\<lambda>p. page_url p = url) (repo_update (page_id page) f ps) = Some (f page)"
  using assms(1,2)
proof (induction ps)
  case Nil
  then show ?case by simp
next
  case (Cons p ps)
  show ?case
  proof (cases "page_url p = url")
    case True
    then show ?thesis using Cons.prems assms(3) by simp
  next
    case False
    then have f: "find (\<lambda>p. page_url p = url) ps = Some page" using Cons.prems by simp
    then have "page \<in> set ps" by (auto simp: find_Some_iff)
    then have "page_id p \<noteq> page_id page" using Cons.prems(2) by auto
    then show ?thesis using False f Cons.IH Cons.prems(2) assms(3) by simp
  qed
qed

text \<open>
  C2. What \<open>_save_content\<close> does with a document that \<open>extract_from_url\<close> returned
  without an error: the document is stored in the website's content directory under the
  file of its URL's hash, and the Page table gets one row for the URL: a new row with
  url, title, website id, last-crawled time and \<open>is_indexed = False\<close> when the URL has
  none, else the existing row (same id, same URL, no new row) with the new title and
  time. The row's content field, however, is \<open>content.get("content")\<close>, and the
  extractor's document has its cleaned body text under \<open>text\<close> and no key \<open>content\<close>:
  the field written is None, in the new row and in the updated one.
\<close>

theorem save_content_upsert:
  "extract_from_url xw url = Inr doc \<and> map_of doc ''error'' = None \<and> distinct (map page_id (pages m))
   \<longrightarrow> map_of (content_files (save_content h now wid doc m)) (wid, h url) = Some doc \<and>
       (\<exists>clean_text. map_of doc ''text'' = Some (JStr clean_text)) \<and>
       map_of doc ''content'' = None \<and>
       (case get_by_url (pages m) url of
          None \<Rightarrow>
            pages (save_content h now wid doc m) =
              pages m @ [\<lparr>page_id = fold max (map page_id (pages m)) 0 + 1, page_url = url,
                          page_title = dict_get doc ''title'', page_content = JNull,
                          page_website_id = wid, last_crawled_at = Some now, is_indexed = False\<rparr>]
        | Some page \<Rightarrow>
            get_by_url (pages (save_content h now wid doc m)) url =
              Some (page\<lparr>page_title := dict_get doc ''title'', page_content := JNull,
                         last_crawled_at := Some now\<rparr>) \<and>
            map page_id (pages (save_content h now wid doc m)) = map page_id (pages m) \<and>
            map page_url (pages (save_content h now wid doc m)) = map page_url (pages m))"
proof (intro impI, elim conjE)
  assume a: "extract_from_url xw url = Inr doc" "map_of doc ''error'' = None"
    and d: "distinct (map page_id (pages m))"
  note s = extract_success_shape[OF a]
  have c: "dict_get doc ''content'' = JNull" using s(2) by (simp add: dict_get_def)
  show "map_of (content_files (save_content h now wid doc m)) (wid, h url) = Some doc \<and>
       (\<exists>clean_text. map_of doc ''text'' = Some (JStr clean_text)) \<and>
       map_of doc ''content'' = None \<and>
       (case get_by_url (pages m) url of
          None \<Rightarrow>
            pages (save_content h now wid doc m) =
              pages m @ [\<lparr>page_id = fold max (map page_id (pages m)) 0 + 1, page_url = url,
                          page_title = dict_get doc ''title'', page_content = JNull,
                          page_website_id = wid, last_crawled_at = Some now, is_indexed = False\<rparr>]
        | Some page \<Rightarrow>
            get_by_url (pages (save_content h now wid doc m)) url =
              Some (page\<lparr>page_title := dict_get doc ''title'', page_content := JNull,
                         last_crawled_at := Some now\<rparr>) \<and>
            map page_id (pages (save_content h now wid doc m)) = map page_id (pages m) \<and>
            map page_url (pages (save_content h now wid doc m)) = map page_url (pages m))"
  proof (cases "get_by_url (pages m) url")
    case None
    then show ?thesis
      using s c by (simp add: save_content_def update_conv' repo_create_def)
  next
    case (Some page)
    then have "find (\<lambda>p. page_url p = url) (pages m) = Some page" by (simp add: get_by_url_def)
    from find_repo_update[OF this d, of "\<lambda>p. p\<lparr>page_title := dict_get doc ''title'',
        page_content := JNull, last_crawled_at := Some now\<rparr>"]
    show ?thesis
      using Some s c
      by (simp add: save_content_def update_conv' get_by_url_def repo_update_ids repo_update_urls)
  qed
qed

lemma sample_extraction:
  "extract_from_url sample_extractor ''https://x.test/a'' = Inr sample_document"
  "map_of sample_document ''error'' = None"
  "dict_get sample_document ''text'' = JStr ''Welcome to the site''"
  "dict_get sample_document ''title'' = JStr ''Welcome''"
  by code_simp+

lemma sample_pages:
  "pages sample_started = []"
  "pages (save_content (py_hash sample_env) 7 1 sample_document sample_started) =
     [\<lparr>page_id = 1, page_url = ''https://x.test/a'', page_title = JStr ''Welcome'', page_content = JNull,
       page_website_id = 1, last_crawled_at = Some 7, is_indexed = False\<rparr>]"
  by code_simp+

theorem save_content_upsert_witness:
  "extract_from_url sample_extractor ''https://x.test/a'' = Inr sample_document \<and>
   dict_get sample_document ''text'' = JStr ''Welcome to the site'' \<and>
   pages (save_content (py_hash sample_env) 7 1 sample_document sample_started) =
     [\<lparr>page_id = 1, page_url = ''https://x.test/a'', page_title = JStr ''Welcome'', page_content = JNull,
       page_website_id = 1, last_crawled_at = Some 7, is_indexed = False\<rparr>] \<and>
   get_by_url (pages (save_content (py_hash sample_env) 8 1 sample_document
                  (save_content (py_hash sample_env) 7 1 sample_document sample_started)))
       ''https://x.test/a'' =
     Some \<lparr>page_id = 1, page_url = ''https://x.test/a'', page_title = JStr ''Welcome'', page_content = JNull,
           page_website_id = 1, last_crawled_at = Some 8, is_indexed = False\<rparr> \<and>
   map page_id (pages (save_content (py_hash sample_env) 8 1 sample_document
                  (save_content (py_hash sample_env) 7 1 sample_document sample_started))) = [1]"
proof -
  let ?m1 = "save_content (py_hash sample_env) 7 1 sample_document sample_started"
  have g0: "get_by_url (pages sample_started) ''https://x.test/a'' = None"
    by (simp add: sample_pages get_by_url_def)
  have g1: "get_by_url (pages ?m1) ''https://x.test/a'' =
     Some \<lparr>page_id = 1, page_url = ''https://x.test/a'', page_title = JStr ''Welcome'', page_content = JNull,
           page_website_id = 1, last_crawled_at = Some 7, is_indexed = False\<rparr>"
    by (simp add: sample_pages get_by_url_def)
  have d: "distinct (map page_id (pages sample_started))" "distinct (map page_id (pages ?m1))"
    by (simp_all add: sample_pages)
  show ?thesis
    using save_content_upsert[of sample_extractor "''https://x.test/a''" sample_document sample_started
        "py_hash sample_env" 7 1]
      save_content_upsert[of sample_extractor "''https://x.test/a''" sample_document ?m1
        "py_hash sample_env" 8 1]
      sample_extraction g0 g1 d
    by (simp add: sample_pages)
qed

end
